theory Spec2Isabelle
  imports Main "HOL-Library.Word"
begin

section \<open>C values and buffers\<close>

text \<open>
  The two functions of \<^verbatim>\<open>src/util/socket.c\<close> work on C \<^verbatim>\<open>int\<close>s (sockets, interface
  indices, return values, \<^verbatim>\<open>errno\<close>) and on \<^verbatim>\<open>char\<close> arrays. A C \<^verbatim>\<open>int\<close> is a 32-bit
  word read in two's complement: the comparisons of the source are the signed ones
  (\<open><s\<close>, \<open>\<le>s\<close>) and unary minus wraps. A \<^verbatim>\<open>char\<close> array is a list of bytes.
\<close>

type_synonym cint = "32 word"
type_synonym byte = "8 word"

text \<open>
  Modelled from the spec: \<^verbatim>\<open>IFNAMSIZ\<close> is declared in \<^verbatim>\<open><net/if.h>\<close>, which is not part of
  the repository; the spec gives the bound as "conventionally 16 bytes including a
  mandatory terminator".
\<close>

definition IFNAMSIZ :: nat where
  "IFNAMSIZ = 16"

text \<open>
  Modelled from the spec: \<^verbatim>\<open>ENOPROTOOPT\<close> is declared in \<^verbatim>\<open><errno.h>\<close>; it is the
  "unknown option" error code of the spec (92 on Linux).
\<close>

definition ENOPROTOOPT :: cint where
  "ENOPROTOOPT = 92"

text \<open>
  \<^verbatim>\<open>strlen\<close> counts the bytes before the first zero byte: \<open>Some n\<close> when the array
  holds one, \<open>None\<close> when it holds none.
\<close>

fun strlen :: "byte list \<Rightarrow> nat option" where
  "strlen [] = None"
| "strlen (c # cs) = (if c = 0 then Some 0 else map_option Suc (strlen cs))"

text \<open>\<^verbatim>\<open>memcpy(dst, src, n)\<close>: the first \<open>n\<close> bytes of \<open>dst\<close> become those of \<open>src\<close>.\<close>

definition memcpy :: "byte list \<Rightarrow> byte list \<Rightarrow> nat \<Rightarrow> byte list" where
  "memcpy dst src n = take n src @ drop n dst"

text \<open>
  Bytes written by the kernel at the start of an array of fixed size: the array keeps
  its size, bytes that do not fit are not part of it.
\<close>

definition write_bytes :: "byte list \<Rightarrow> byte list \<Rightarrow> byte list" where
  "write_bytes arr bs = take (length arr) bs @ drop (length bs) arr"

text \<open>The bytes of a buffer before its first zero byte (the C string it holds).\<close>

definition cstring :: "byte list \<Rightarrow> byte list" where
  "cstring buf = takeWhile (\<lambda>c. c \<noteq> 0) buf"

definition zero_terminated :: "byte list \<Rightarrow> bool" where
  "zero_terminated buf = (0 \<in> set buf)"

text \<open>
  \<^verbatim>\<open>strlen\<close> as the code runs it. On an array that holds no zero byte it does not
  stop at the end of the array (C leaves the read undefined, the compiled code reads
  on): it goes through the bytes that follow the array in memory until it meets a zero
  byte. \<open>past\<close> is those bytes, a zero byte following them.
\<close>

definition strlen_past :: "byte list \<Rightarrow> byte list \<Rightarrow> nat" where
  "strlen_past arr past =
     (case strlen arr of Some n \<Rightarrow> n | None \<Rightarrow> length arr + length (cstring past))"

section \<open>The kernel as the environment\<close>

text \<open>
  The code talks to the kernel through three requests: the \<^verbatim>\<open>SIOCGIFNAME\<close> ioctl and
  \<^verbatim>\<open>setsockopt\<close> with \<^verbatim>\<open>SO_BINDTOIF\<close> or \<^verbatim>\<open>SO_BINDTODEVICE\<close>. A request carries what the
  source passes: the socket and, respectively, \<^verbatim>\<open>req.ifr_ifindex\<close>; the index
  (\<^verbatim>\<open>&ifindex\<close>, \<^verbatim>\<open>sizeof(ifindex)\<close>); the buffer \<^verbatim>\<open>ifname\<close> and the length \<^verbatim>\<open>optlen\<close>.
\<close>

datatype syscall =
    Ioctl_SIOCGIFNAME cint cint
  | Setsockopt_BINDTOIF cint cint
  | Setsockopt_BINDTODEVICE cint "byte list" nat

text \<open>
  What the code can observe after a request: the value returned, the value of
  \<^verbatim>\<open>errno\<close>, and (for the ioctl) the bytes the kernel wrote to \<^verbatim>\<open>req.ifr_name\<close>.
\<close>

record reply =
  sys_ret :: cint
  sys_errno :: cint
  sys_ifr_name :: "byte list"

text \<open>
  A kernel is any deterministic machine that answers requests and moves to a new
  state. The theorems about the code hold for every such machine unless they say
  otherwise.
\<close>

type_synonym 'k kernel = "'k \<Rightarrow> syscall \<Rightarrow> reply \<times> 'k"

text \<open>
  The world the code runs in: the kernel's state, the log of requests made, and the
  bytes that follow the array \<^verbatim>\<open>ifname\<close> of \<^verbatim>\<open>socket_bind_if\<close> in memory.
\<close>

record 'k world =
  kstate :: 'k
  calls :: "(syscall \<times> reply) list"
  past_ifname :: "byte list"

definition reply_of :: "'k kernel \<Rightarrow> syscall \<Rightarrow> 'k world \<Rightarrow> reply" where
  "reply_of K c w = fst (K (kstate w) c)"

definition world_after :: "'k kernel \<Rightarrow> syscall \<Rightarrow> 'k world \<Rightarrow> 'k world" where
  "world_after K c w =
     w\<lparr>kstate := snd (K (kstate w) c), calls := calls w @ [(c, reply_of K c w)]\<rparr>"

definition sys :: "'k kernel \<Rightarrow> syscall \<Rightarrow> 'k world \<Rightarrow> reply \<times> 'k world" where
  "sys K c w = (reply_of K c w, world_after K c w)"

text \<open>The requests made between an earlier world and a later one.\<close>

definition new_calls :: "'k world \<Rightarrow> 'k world \<Rightarrow> (syscall \<times> reply) list" where
  "new_calls w w' = drop (length (calls w)) (calls w')"

definition is_ioctl :: "syscall \<times> reply \<Rightarrow> bool" where
  "is_ioctl e = (case fst e of Ioctl_SIOCGIFNAME s i \<Rightarrow> True | _ \<Rightarrow> False)"

definition is_bindtoif :: "syscall \<times> reply \<Rightarrow> bool" where
  "is_bindtoif e = (case fst e of Setsockopt_BINDTOIF s i \<Rightarrow> True | _ \<Rightarrow> False)"

definition is_bindtodevice :: "syscall \<times> reply \<Rightarrow> bool" where
  "is_bindtodevice e = (case fst e of Setsockopt_BINDTODEVICE s b n \<Rightarrow> True | _ \<Rightarrow> False)"

text \<open>A request failed, as the source tests it: the value returned is negative.\<close>

definition failed :: "syscall \<times> reply \<Rightarrow> bool" where
  "failed e = (sys_ret (snd e) <s 0)"

section \<open>socket\_SIOCGIFNAME\<close>

text \<open>
  \<^verbatim>\<open>req\<close> is initialised with the index and zeros elsewhere, so \<^verbatim>\<open>req.ifr_name\<close> is
  \<^verbatim>\<open>IFNAMSIZ\<close> zero bytes before the ioctl. The result is the value returned and the
  caller's buffer \<^verbatim>\<open>*ifnamep\<close> after the call.
\<close>

definition socket_SIOCGIFNAME ::
  "'k kernel \<Rightarrow> cint \<Rightarrow> cint \<Rightarrow> byte list \<Rightarrow> 'k world \<Rightarrow> (cint \<times> byte list) \<times> 'k world" where
  "socket_SIOCGIFNAME K socket ifindex ifname w =
     (let (rep, w') = sys K (Ioctl_SIOCGIFNAME socket ifindex) w;
          req_ifr_name = write_bytes (replicate IFNAMSIZ 0) (sys_ifr_name rep)
      in if sys_ret rep <s 0 then ((- sys_errno rep, ifname), w')
         else ((0, memcpy ifname req_ifr_name IFNAMSIZ), w'))"

section \<open>socket\_bind\_if\<close>

text \<open>A call either returns an \<^verbatim>\<open>int\<close> or stops at the failed \<^verbatim>\<open>assert\<close>.\<close>

datatype outcome = Return cint | AssertFail

text \<open>
  Lines 83 to 91, the \<^verbatim>\<open>SO_BINDTOIF\<close> block: \<open>Some r\<close> when the block returns \<open>r\<close>,
  \<open>None\<close> when control goes on to the code after it.
\<close>

definition bind_SO_BINDTOIF ::
  "'k kernel \<Rightarrow> cint \<Rightarrow> cint \<Rightarrow> 'k world \<Rightarrow> cint option \<times> 'k world" where
  "bind_SO_BINDTOIF K socket ifindex w =
     (let (rep, w') = sys K (Setsockopt_BINDTOIF socket ifindex) w
      in if 0 <=s sys_ret rep then (Some 0, w')
         else if sys_errno rep \<noteq> ENOPROTOOPT then (Some (- sys_errno rep), w')
         else (None, w'))"

text \<open>
  Lines 95 to 109: resolve the name if the index is positive, then \<^verbatim>\<open>setsockopt\<close> with
  \<^verbatim>\<open>SO_BINDTODEVICE\<close>, \<^verbatim>\<open>ifname\<close> and \<^verbatim>\<open>strlen(ifname)\<close>, whatever the array holds.
\<close>

definition bind_SO_BINDTODEVICE ::
  "'k kernel \<Rightarrow> cint \<Rightarrow> cint \<Rightarrow> byte list \<Rightarrow> 'k world \<Rightarrow> outcome \<times> 'k world" where
  "bind_SO_BINDTODEVICE K socket ifindex ifname w =
     (let ((r, ifname'), w') =
            (if 0 <s ifindex then socket_SIOCGIFNAME K socket ifindex ifname w
             else ((0, ifname), w))
      in if 0 <s ifindex \<and> r \<noteq> 0 then (Return r, w')
         else (let (rep, w'') =
                     sys K (Setsockopt_BINDTODEVICE socket ifname'
                              (strlen_past ifname' (past_ifname w'))) w'
               in if sys_ret rep <s 0 then (Return (- sys_errno rep), w'')
                  else (Return 0, w'')))"

text \<open>
  The whole function, for a build with the \<^verbatim>\<open>SO_BINDTOIF\<close> block compiled in
  (\<open>bindtoif = True\<close>: the \<^verbatim>\<open>#if 0\<close> lifted and \<^verbatim>\<open>SO_BINDTOIF\<close> defined) or left out.
\<close>

definition socket_bind_if_build ::
  "bool \<Rightarrow> 'k kernel \<Rightarrow> cint \<Rightarrow> cint \<Rightarrow> 'k world \<Rightarrow> outcome \<times> 'k world" where
  "socket_bind_if_build bindtoif K socket ifindex w =
     (let ifname = replicate IFNAMSIZ 0
      in if \<not> 0 <=s ifindex then (AssertFail, w)
         else if bindtoif then
           (case bind_SO_BINDTOIF K socket ifindex w of
              (Some r, w') \<Rightarrow> (Return r, w')
            | (None, w') \<Rightarrow> bind_SO_BINDTODEVICE K socket ifindex ifname w')
         else bind_SO_BINDTODEVICE K socket ifindex ifname w)"

text \<open>
  The source as it stands: line 81 is \<^verbatim>\<open>#if 0\<close>, so the block is never compiled.
\<close>

definition socket_bind_if :: "'k kernel \<Rightarrow> cint \<Rightarrow> cint \<Rightarrow> 'k world \<Rightarrow> outcome \<times> 'k world" where
  "socket_bind_if K socket ifindex w = socket_bind_if_build False K socket ifindex w"

section \<open>A kernel with interfaces and socket bindings\<close>

text \<open>
  Modelled from the spec: the kernel is not part of the repository. This machine does
  what the spec and the comments of the source say of it. A namespace holds its
  interfaces (index and name, the name without terminator) and, for every socket, the
  index of the interface it is bound to, 0 when it is unbound, as a freshly created
  socket is. Resolving an index that exists gives its name, zero-terminated; an index
  that does not exist is an error. \<^verbatim>\<open>SO_BINDTODEVICE\<close> reads \<^verbatim>\<open>optlen\<close> bytes of the
  buffer (at most \<^verbatim>\<open>IFNAMSIZ - 1\<close>): the empty name removes the binding, the name of
  an interface binds to it, any other name is an error. \<^verbatim>\<open>SO_BINDTOIF\<close> "is not yet
  upstream": the option is unknown.
\<close>

definition ENODEV :: cint where
  "ENODEV = 19"

record netns =
  ifaces :: "(cint \<times> byte list) list"
  bound_dev_if :: "cint \<Rightarrow> cint"

definition index_of_name :: "(cint \<times> byte list) list \<Rightarrow> byte list \<Rightarrow> cint option" where
  "index_of_name ifs nm = map_option fst (find (\<lambda>e. snd e = nm) ifs)"

definition k_fail :: "cint \<Rightarrow> reply" where
  "k_fail e = \<lparr>sys_ret = - 1, sys_errno = e, sys_ifr_name = []\<rparr>"

definition k_ok :: "byte list \<Rightarrow> reply" where
  "k_ok bs = \<lparr>sys_ret = 0, sys_errno = 0, sys_ifr_name = bs\<rparr>"

fun linux :: "netns kernel" where
  "linux ns (Ioctl_SIOCGIFNAME s i) =
     (case map_of (ifaces ns) i of
        None \<Rightarrow> (k_fail ENODEV, ns)
      | Some nm \<Rightarrow> (k_ok (nm @ [0]), ns))"
| "linux ns (Setsockopt_BINDTOIF s i) = (k_fail ENOPROTOOPT, ns)"
| "linux ns (Setsockopt_BINDTODEVICE s buf optlen) =
     (let devname = cstring (take (min optlen (IFNAMSIZ - 1)) buf)
      in if devname = [] then (k_ok [], ns\<lparr>bound_dev_if := (bound_dev_if ns)(s := 0)\<rparr>)
         else (case index_of_name (ifaces ns) devname of
                 None \<Rightarrow> (k_fail ENODEV, ns)
               | Some i \<Rightarrow> (k_ok [], ns\<lparr>bound_dev_if := (bound_dev_if ns)(s := i)\<rparr>)))"

text \<open>
  The kernel's guarantee about names: not empty, no zero byte inside, and short enough
  to fit \<^verbatim>\<open>IFNAMSIZ\<close> bytes with the terminator.
\<close>

definition valid_ifname :: "byte list \<Rightarrow> bool" where
  "valid_ifname nm = (nm \<noteq> [] \<and> 0 \<notin> set nm \<and> length nm < IFNAMSIZ)"

definition wf_netns :: "netns \<Rightarrow> bool" where
  "wf_netns ns = list_all (\<lambda>e. valid_ifname (snd e)) (ifaces ns)"

text \<open>
  What binding socket \<open>s\<close> to index \<open>i\<close> by name comes to on this kernel: the value
  returned and the namespace afterwards.
\<close>

definition linux_bind :: "netns \<Rightarrow> cint \<Rightarrow> cint \<Rightarrow> outcome \<times> netns" where
  "linux_bind ns s i =
     (if i = 0 then (Return 0, ns\<lparr>bound_dev_if := (bound_dev_if ns)(s := 0)\<rparr>)
      else (case map_of (ifaces ns) i of
              None \<Rightarrow> (Return (- ENODEV), ns)
            | Some nm \<Rightarrow>
                (case index_of_name (ifaces ns) nm of
                   None \<Rightarrow> (Return (- ENODEV), ns)
                 | Some j \<Rightarrow> (Return 0, ns\<lparr>bound_dev_if := (bound_dev_if ns)(s := j)\<rparr>))))"

definition start :: "'k \<Rightarrow> 'k world" where
  "start k = \<lparr>kstate = k, calls = [], past_ifname = []\<rparr>"

text \<open>
  The kernel's contract on \<^verbatim>\<open>errno\<close>: a request that fails leaves a positive error
  code there.
\<close>

definition errno_contract :: "'k kernel \<Rightarrow> bool" where
  "errno_contract K = (\<forall>k c. sys_ret (fst (K k c)) <s 0 \<longrightarrow> 0 <s sys_errno (fst (K k c)))"

text \<open>
  The documented return values, read against the requests a call made: 0 when no
  request failed; otherwise the negated \<^verbatim>\<open>errno\<close> of the failed request, a negative
  value, that request being the last one made and the only one that failed.
\<close>

definition documented_return :: "cint \<Rightarrow> (syscall \<times> reply) list \<Rightarrow> bool" where
  "documented_return v cs =
     ((v = 0 \<and> \<not> list_ex failed cs) \<or>
      (v <s 0 \<and> cs \<noteq> [] \<and> failed (last cs) \<and> v = - sys_errno (snd (last cs)) \<and>
       \<not> list_ex failed (butlast cs)))"

section \<open>Example environments\<close>

text \<open>A namespace with the interfaces \<^verbatim>\<open>lo\<close> (index 1) and \<^verbatim>\<open>eth0\<close> (index 2), no socket bound.\<close>

definition lo_eth0 :: netns where
  "lo_eth0 = \<lparr>ifaces = [(1, [108, 111]), (2, [101, 116, 104, 48])], bound_dev_if = (\<lambda>s. 0)\<rparr>"

text \<open>The same namespace with socket 3 bound to \<^verbatim>\<open>eth0\<close>.\<close>

definition lo_eth0_bound :: netns where
  "lo_eth0_bound = lo_eth0\<lparr>bound_dev_if := (bound_dev_if lo_eth0)(3 := 2)\<rparr>"

text \<open>
  A machine that breaks the contract on names: it answers every request with success
  and \<^verbatim>\<open>IFNAMSIZ\<close> bytes \<^verbatim>\<open>'A'\<close>, none of them zero.
\<close>

definition unterminating :: "unit kernel" where
  "unterminating k c = (k_ok (replicate IFNAMSIZ 65), k)"

section \<open>Facts about the embedding\<close>

lemma neg_of_pos: "0 <s (e::cint) \<Longrightarrow> - e <s 0"
proof -
  assume "0 <s e"
  then have pos: "0 < sint e" by (simp add: word_sless_alt)
  have "sint e < 2 ^ 31" using sint_lt [of e] by simp
  with pos have "signed_take_bit 31 (- sint e) = - sint e"
    by (intro signed_take_bit_int_eq_self) auto
  then have "sint (- e) = - sint e" by (simp add: sint_word_ariths)
  with pos show ?thesis by (simp add: word_sless_alt)
qed

lemma neg_nonzero: "(r::cint) <s 0 \<Longrightarrow> r \<noteq> 0"
  by (auto simp: word_sless_alt)

lemma sle_iff_not_sless: "0 <=s (i::cint) \<longleftrightarrow> \<not> i <s 0"
  by (auto simp: word_sle_eq word_sless_alt)

lemma nonneg_cases: "0 <=s (i::cint) \<Longrightarrow> i = 0 \<or> 0 <s i"
  by (auto simp: word_sless_eq)

lemma not_pos_zero: "\<not> 0 <s (0::cint)"
  by (simp add: word_sless_alt)

lemma strlen_zeros: "strlen (replicate IFNAMSIZ 0) = Some 0"
proof -
  have "strlen (replicate (Suc n) 0) = Some 0" for n by simp
  from this [of 15] show ?thesis by (simp add: IFNAMSIZ_def)
qed

lemma cstring_zeros: "cstring (replicate IFNAMSIZ 0) = []"
proof -
  have "cstring (replicate (Suc n) 0) = []" for n by (simp add: cstring_def)
  from this [of 15] show ?thesis by (simp add: IFNAMSIZ_def)
qed

lemma strlen_None_iff: "strlen buf = None \<longleftrightarrow> 0 \<notin> set buf"
  by (induction buf) auto

lemma strlen_Some: "strlen buf = Some n \<Longrightarrow> n = length (cstring buf) \<and> n < length buf"
  by (induction buf arbitrary: n) (auto simp: cstring_def split: if_splits)

lemma strlen_cstring: "0 \<in> set buf \<Longrightarrow> strlen buf = Some (length (cstring buf))"
  by (induction buf) (auto simp: cstring_def)

lemma strlen_past_terminated: "0 \<in> set arr \<Longrightarrow> strlen_past arr past = length (cstring arr)"
  by (simp add: strlen_past_def strlen_cstring)

lemma strlen_past_overrun:
  "0 \<notin> set arr \<Longrightarrow> strlen_past arr past = length arr + length (cstring past)"
  by (simp add: strlen_past_def strlen_None_iff [THEN iffD2])

lemma strlen_past_zeros: "strlen_past (replicate IFNAMSIZ 0) past = 0"
  by (simp add: strlen_past_def strlen_zeros)

lemma cstring_append: "0 \<notin> set nm \<Longrightarrow> cstring (nm @ 0 # rest) = nm"
  by (induction nm) (auto simp: cstring_def)

lemma length_write_bytes: "length (write_bytes arr bs) = length arr"
  by (auto simp: write_bytes_def)

lemma memcpy_whole: "length dst = n \<Longrightarrow> length src = n \<Longrightarrow> memcpy dst src n = src"
  by (simp add: memcpy_def)

lemma resolver_eq:
  "socket_SIOCGIFNAME K socket ifindex ifname w =
     ((if sys_ret (reply_of K (Ioctl_SIOCGIFNAME socket ifindex) w) <s 0
       then (- sys_errno (reply_of K (Ioctl_SIOCGIFNAME socket ifindex) w), ifname)
       else (0, memcpy ifname (write_bytes (replicate IFNAMSIZ 0)
                 (sys_ifr_name (reply_of K (Ioctl_SIOCGIFNAME socket ifindex) w))) IFNAMSIZ)),
      world_after K (Ioctl_SIOCGIFNAME socket ifindex) w)"
  by (simp add: socket_SIOCGIFNAME_def sys_def Let_def)

lemma new_calls_after: "new_calls w (world_after K c w) = [(c, reply_of K c w)]"
  by (simp add: new_calls_def world_after_def)

lemma past_after: "past_ifname (world_after K c w) = past_ifname w"
  by (simp add: world_after_def)

lemma new_calls_same: "new_calls w w = []"
  by (simp add: new_calls_def)

text \<open>The name-based path when the index is 0.\<close>

lemma bind_name_zero:
  "bind_SO_BINDTODEVICE K socket 0 (replicate IFNAMSIZ 0) w =
     (Return (if sys_ret (reply_of K (Setsockopt_BINDTODEVICE socket (replicate IFNAMSIZ 0) 0) w) <s 0
              then - sys_errno (reply_of K (Setsockopt_BINDTODEVICE socket (replicate IFNAMSIZ 0) 0) w)
              else 0),
      world_after K (Setsockopt_BINDTODEVICE socket (replicate IFNAMSIZ 0) 0) w)"
  by (simp add: bind_SO_BINDTODEVICE_def not_pos_zero strlen_past_zeros sys_def)

text \<open>The name-based path when the index is positive.\<close>

lemma bind_name_pos:
  assumes "0 <s ifindex"
  shows "bind_SO_BINDTODEVICE K socket ifindex ifname w =
     (let ((r, buf), w') = socket_SIOCGIFNAME K socket ifindex ifname w
      in if r \<noteq> 0 then (Return r, w')
         else (Return (if sys_ret (reply_of K (Setsockopt_BINDTODEVICE socket buf
                                     (strlen_past buf (past_ifname w'))) w') <s 0
                       then - sys_errno (reply_of K (Setsockopt_BINDTODEVICE socket buf
                                     (strlen_past buf (past_ifname w'))) w')
                       else 0),
               world_after K (Setsockopt_BINDTODEVICE socket buf
                                (strlen_past buf (past_ifname w'))) w'))"
  using assms
  by (simp add: bind_SO_BINDTODEVICE_def sys_def Let_def split_beta)

lemma bind_if_nonneg:
  "0 <=s ifindex \<Longrightarrow>
     socket_bind_if K socket ifindex w = bind_SO_BINDTODEVICE K socket ifindex (replicate IFNAMSIZ 0) w"
  by (simp add: socket_bind_if_def socket_bind_if_build_def)

lemma bind_if_negative: "ifindex <s 0 \<Longrightarrow> socket_bind_if_build b K socket ifindex w = (AssertFail, w)"
  by (simp add: socket_bind_if_build_def sle_iff_not_sless)

lemma resolver_buffer:
  assumes "\<not> sys_ret (reply_of K (Ioctl_SIOCGIFNAME socket ifindex) w) <s 0"
    and "length ifname = IFNAMSIZ"
  shows "fst (socket_SIOCGIFNAME K socket ifindex ifname w) =
           (0, write_bytes (replicate IFNAMSIZ 0)
                 (sys_ifr_name (reply_of K (Ioctl_SIOCGIFNAME socket ifindex) w)))"
  using assms by (simp add: resolver_eq memcpy_whole length_write_bytes)

lemma write_bytes_zero:
  "0 \<in> set (write_bytes (replicate n 0) bs) \<longleftrightarrow> length bs < n \<or> 0 \<in> set (take n bs)"
  by (auto simp: write_bytes_def)

lemma write_bytes_name:
  assumes "length nm < n"
  shows "write_bytes (replicate n 0) (nm @ 0 # rest) = nm @ 0 # drop (Suc (length nm)) (write_bytes (replicate n 0) (nm @ 0 # rest))"
  using assms by (auto simp: write_bytes_def take_Cons' drop_Cons' Suc_diff_Suc split: nat.splits) 

lemma linux_lo_reply:
  "reply_of linux (Ioctl_SIOCGIFNAME 3 1) (start lo_eth0) = k_ok [108, 111, 0]"
  by (simp add: reply_of_def start_def lo_eth0_def)

lemma k_ok_succeeds: "\<not> sys_ret (k_ok bs) <s 0"
  by (simp add: k_ok_def word_sless_alt)

lemma write_lo:
  "write_bytes (replicate IFNAMSIZ 0) [108, 111, 0] = [108, 111, 0, 0, 0, 0, 0, 0, 0, 0, 0, 0, 0, 0, 0, 0]"
  by (simp add: write_bytes_def IFNAMSIZ_def eval_nat_numeral)

section \<open>Claims about socket\_SIOCGIFNAME\<close>

text \<open>
  Claim C8. When the ioctl fails, \<^verbatim>\<open>socket_SIOCGIFNAME\<close> returns the negated \<^verbatim>\<open>errno\<close>
  and the caller's buffer is the one it was given, byte for byte: no name is returned.
  The value returned is negative, \<^verbatim>\<open>errno\<close> being positive after a failed request.
\<close>

theorem socket_SIOCGIFNAME_error_path:
  assumes "sys_ret (reply_of K (Ioctl_SIOCGIFNAME socket ifindex) w) <s 0"
  shows "fst (socket_SIOCGIFNAME K socket ifindex ifname w) =
           (- sys_errno (reply_of K (Ioctl_SIOCGIFNAME socket ifindex) w), ifname) \<and>
         (0 <s sys_errno (reply_of K (Ioctl_SIOCGIFNAME socket ifindex) w) \<longrightarrow>
            fst (fst (socket_SIOCGIFNAME K socket ifindex ifname w)) <s 0)"
  using assms by (simp add: resolver_eq neg_of_pos)

theorem socket_SIOCGIFNAME_error_path_witness:
  "sys_ret (reply_of linux (Ioctl_SIOCGIFNAME 3 7) (start lo_eth0)) <s 0 \<and>
   0 <s sys_errno (reply_of linux (Ioctl_SIOCGIFNAME 3 7) (start lo_eth0)) \<and>
   fst (socket_SIOCGIFNAME linux 3 7 [1, 2, 3, 4, 5, 6, 7, 8, 9, 10, 11, 12, 13, 14, 15, 16]
          (start lo_eth0)) =
     (- 19, [1, 2, 3, 4, 5, 6, 7, 8, 9, 10, 11, 12, 13, 14, 15, 16]) \<and>
   fst (fst (socket_SIOCGIFNAME linux 3 7 [1, 2, 3, 4, 5, 6, 7, 8, 9, 10, 11, 12, 13, 14, 15, 16]
          (start lo_eth0))) <s 0"
proof -
  have rep: "reply_of linux (Ioctl_SIOCGIFNAME 3 7) (start lo_eth0) = k_fail 19"
    by (simp add: reply_of_def start_def lo_eth0_def ENODEV_def)
  have a: "sys_ret (reply_of linux (Ioctl_SIOCGIFNAME 3 7) (start lo_eth0)) <s 0"
    by (simp add: rep k_fail_def word_sless_alt)
  have b: "0 <s sys_errno (reply_of linux (Ioctl_SIOCGIFNAME 3 7) (start lo_eth0))"
    by (simp add: rep k_fail_def word_sless_alt)
  from socket_SIOCGIFNAME_error_path [OF a] a b show ?thesis
    by (simp add: rep k_fail_def word_sless_alt)
qed

text \<open>
  Claim C9. For an interface that exists, the kernel answers the ioctl with success
  and the name of the interface: not empty, free of zero bytes, shorter than
  \<^verbatim>\<open>IFNAMSIZ\<close>, followed by a zero byte. Then \<^verbatim>\<open>socket_SIOCGIFNAME\<close> returns 0 and the
  caller's buffer holds that name, zero-terminated, not empty, of length at most
  \<^verbatim>\<open>IFNAMSIZ - 1\<close>.
\<close>

theorem socket_SIOCGIFNAME_stores_name:
  assumes "\<not> sys_ret (reply_of K (Ioctl_SIOCGIFNAME socket ifindex) w) <s 0"
    and "sys_ifr_name (reply_of K (Ioctl_SIOCGIFNAME socket ifindex) w) = nm @ 0 # rest"
    and "valid_ifname nm"
  shows "fst (fst (socket_SIOCGIFNAME K socket ifindex ifname w)) = 0 \<and>
         zero_terminated (snd (fst (socket_SIOCGIFNAME K socket ifindex ifname w))) \<and>
         cstring (snd (fst (socket_SIOCGIFNAME K socket ifindex ifname w))) = nm \<and>
         cstring (snd (fst (socket_SIOCGIFNAME K socket ifindex ifname w))) \<noteq> [] \<and>
         length (cstring (snd (fst (socket_SIOCGIFNAME K socket ifindex ifname w)))) \<le> IFNAMSIZ - 1"
proof -
  from assms(3) have nm: "nm \<noteq> []" "0 \<notin> set nm" "length nm < IFNAMSIZ"
    by (simp_all add: valid_ifname_def)
  define req where "req = write_bytes (replicate IFNAMSIZ 0) (nm @ 0 # rest)"
  have req: "req = nm @ 0 # drop (Suc (length nm)) req"
    unfolding req_def using write_bytes_name [OF nm(3)] .
  have len: "length req = IFNAMSIZ" by (simp add: req_def length_write_bytes)
  have res: "fst (socket_SIOCGIFNAME K socket ifindex ifname w) = (0, req @ drop IFNAMSIZ ifname)"
    using assms(1,2) len by (simp add: resolver_eq memcpy_def req_def)
  have buf: "req @ drop IFNAMSIZ ifname = nm @ 0 # (drop (Suc (length nm)) req @ drop IFNAMSIZ ifname)"
    by (subst req) simp
  have cs: "cstring (req @ drop IFNAMSIZ ifname) = nm"
    by (subst buf) (rule cstring_append [OF nm(2)])
  have zt: "zero_terminated (req @ drop IFNAMSIZ ifname)"
    by (subst buf) (simp add: zero_terminated_def)
  from nm show ?thesis by (simp add: res cs zt)
qed

theorem socket_SIOCGIFNAME_stores_name_witness:
  "\<not> sys_ret (reply_of linux (Ioctl_SIOCGIFNAME 3 1) (start lo_eth0)) <s 0 \<and>
   sys_ifr_name (reply_of linux (Ioctl_SIOCGIFNAME 3 1) (start lo_eth0)) = [108, 111] @ 0 # [] \<and>
   valid_ifname [108, 111] \<and>
   cstring (snd (fst (socket_SIOCGIFNAME linux 3 1 (replicate IFNAMSIZ 0) (start lo_eth0)))) = [108, 111]"
proof -
  have a: "\<not> sys_ret (reply_of linux (Ioctl_SIOCGIFNAME 3 1) (start lo_eth0)) <s 0"
    by (simp add: linux_lo_reply k_ok_succeeds)
  have b: "sys_ifr_name (reply_of linux (Ioctl_SIOCGIFNAME 3 1) (start lo_eth0)) = [108, 111] @ 0 # []"
    by (simp add: linux_lo_reply k_ok_def)
  have c: "valid_ifname [108, 111]"
    by (simp add: valid_ifname_def IFNAMSIZ_def)
  from socket_SIOCGIFNAME_stores_name [OF a b c] a b c show ?thesis by blast
qed

text \<open>
  Claim C2, as stated, fails: there is no check. A kernel that answers with success and
  \<^verbatim>\<open>IFNAMSIZ\<close> bytes without a zero leaves the caller's buffer without a terminator.
\<close>

theorem socket_SIOCGIFNAME_unterminated:
  "\<not> sys_ret (reply_of unterminating (Ioctl_SIOCGIFNAME 3 1) (start ())) <s 0 \<and>
   fst (socket_SIOCGIFNAME unterminating 3 1 (replicate IFNAMSIZ 0) (start ())) =
     (0, replicate IFNAMSIZ 65) \<and>
   \<not> zero_terminated (snd (fst (socket_SIOCGIFNAME unterminating 3 1 (replicate IFNAMSIZ 0) (start ()))))"
proof -
  have rep: "reply_of unterminating (Ioctl_SIOCGIFNAME 3 1) (start ()) = k_ok (replicate IFNAMSIZ 65)"
    by (simp add: reply_of_def unterminating_def)
  have wr: "write_bytes (replicate IFNAMSIZ 0) (replicate IFNAMSIZ 65) = replicate IFNAMSIZ 65"
    by (simp add: write_bytes_def)
  have res: "fst (socket_SIOCGIFNAME unterminating 3 1 (replicate IFNAMSIZ 0) (start ())) =
     (0, replicate IFNAMSIZ 65)"
    by (simp add: resolver_eq rep k_ok_succeeds memcpy_whole) (simp add: k_ok_def wr memcpy_whole)
  show ?thesis
    by (simp add: res rep k_ok_succeeds zero_terminated_def)
qed

text \<open>
  Claim C2, amended. After a successful request \<^verbatim>\<open>socket_SIOCGIFNAME\<close> returns 0 and
  copies the \<^verbatim>\<open>IFNAMSIZ\<close> bytes of \<^verbatim>\<open>req.ifr_name\<close> to the caller's buffer as they are. The
  buffer is zero-terminated exactly when the kernel left a zero byte within those
  \<^verbatim>\<open>IFNAMSIZ\<close> bytes (it wrote fewer bytes, or one of the bytes it wrote is zero), which
  the code relies on the kernel to guarantee.
\<close>

theorem socket_SIOCGIFNAME_copies_unchecked:
  assumes "\<not> sys_ret (reply_of K (Ioctl_SIOCGIFNAME socket ifindex) w) <s 0"
    and "length ifname = IFNAMSIZ"
  shows "fst (socket_SIOCGIFNAME K socket ifindex ifname w) =
           (0, write_bytes (replicate IFNAMSIZ 0)
                 (sys_ifr_name (reply_of K (Ioctl_SIOCGIFNAME socket ifindex) w))) \<and>
         (zero_terminated (snd (fst (socket_SIOCGIFNAME K socket ifindex ifname w))) \<longleftrightarrow>
            length (sys_ifr_name (reply_of K (Ioctl_SIOCGIFNAME socket ifindex) w)) < IFNAMSIZ \<or>
            0 \<in> set (take IFNAMSIZ (sys_ifr_name (reply_of K (Ioctl_SIOCGIFNAME socket ifindex) w))))"
  by (simp add: resolver_buffer [OF assms] zero_terminated_def write_bytes_zero)

theorem socket_SIOCGIFNAME_copies_unchecked_witness:
  "\<not> sys_ret (reply_of linux (Ioctl_SIOCGIFNAME 3 1) (start lo_eth0)) <s 0 \<and>
   length (replicate IFNAMSIZ (0 :: byte)) = IFNAMSIZ \<and>
   fst (socket_SIOCGIFNAME linux 3 1 (replicate IFNAMSIZ 0) (start lo_eth0)) =
     (0, [108, 111, 0, 0, 0, 0, 0, 0, 0, 0, 0, 0, 0, 0, 0, 0])"
proof -
  have a: "\<not> sys_ret (reply_of linux (Ioctl_SIOCGIFNAME 3 1) (start lo_eth0)) <s 0"
    by (simp add: linux_lo_reply k_ok_succeeds)
  have b: "length (replicate IFNAMSIZ (0 :: byte)) = IFNAMSIZ" by simp
  from socket_SIOCGIFNAME_copies_unchecked [OF a b] a b show ?thesis
    by (simp add: linux_lo_reply k_ok_def write_lo)
qed

section \<open>Claims about socket\_bind\_if\<close>

text \<open>
  Claim C5. A negative interface index stops \<^verbatim>\<open>socket_bind_if\<close> at the assertion: the
  outcome is the failed assertion and the world is the one before the call, so no
  request reached the kernel. For every index that is not negative the assertion
  passes: the outcome is never the failed assertion.
\<close>

theorem socket_bind_if_asserts_index:
  "(ifindex <s 0 \<longrightarrow> socket_bind_if K socket ifindex w = (AssertFail, w)) \<and>
   (0 <=s ifindex \<longrightarrow> fst (socket_bind_if K socket ifindex w) \<noteq> AssertFail)"
proof (intro conjI impI)
  assume "ifindex <s 0"
  then show "socket_bind_if K socket ifindex w = (AssertFail, w)"
    by (simp add: socket_bind_if_def bind_if_negative)
next
  assume nonneg: "0 <=s ifindex"
  show "fst (socket_bind_if K socket ifindex w) \<noteq> AssertFail"
  proof (cases "0 <s ifindex")
    case True
    then show ?thesis
      by (simp add: bind_if_nonneg [OF nonneg] bind_name_pos split_beta Let_def split: option.splits)
  next
    case False
    with nonneg have "ifindex = 0" using nonneg_cases by blast
    with nonneg show ?thesis by (simp add: bind_if_nonneg bind_name_zero)
  qed
qed

theorem socket_bind_if_asserts_index_witness:
  "(- 1 :: cint) <s 0 \<and> socket_bind_if linux 3 (- 1) (start lo_eth0) = (AssertFail, start lo_eth0) \<and>
   0 <=s (2 :: cint) \<and> fst (socket_bind_if linux 3 2 (start lo_eth0)) \<noteq> AssertFail"
  using socket_bind_if_asserts_index [of "- 1" linux 3 "start lo_eth0"]
    socket_bind_if_asserts_index [of 2 linux 3 "start lo_eth0"]
  by (simp add: word_sle_eq word_sless_alt)

text \<open>
  Claim C4. For a positive index, when \<^verbatim>\<open>socket_SIOCGIFNAME\<close> returns a value other
  than 0, \<^verbatim>\<open>socket_bind_if\<close> returns that value at once: the only request made is the
  ioctl, and \<^verbatim>\<open>SO_BINDTODEVICE\<close> is never set.
\<close>

theorem socket_bind_if_resolve_error:
  assumes "0 <s ifindex"
    and "fst (fst (socket_SIOCGIFNAME K socket ifindex (replicate IFNAMSIZ 0) w)) \<noteq> 0"
  shows "socket_bind_if K socket ifindex w =
           (Return (fst (fst (socket_SIOCGIFNAME K socket ifindex (replicate IFNAMSIZ 0) w))),
            snd (socket_SIOCGIFNAME K socket ifindex (replicate IFNAMSIZ 0) w)) \<and>
         new_calls w (snd (socket_bind_if K socket ifindex w)) =
           [(Ioctl_SIOCGIFNAME socket ifindex, reply_of K (Ioctl_SIOCGIFNAME socket ifindex) w)] \<and>
         \<not> list_ex is_bindtodevice (new_calls w (snd (socket_bind_if K socket ifindex w)))"
proof -
  from assms(1) have nonneg: "0 <=s ifindex" by (simp add: word_sless_eq)
  have eq: "socket_bind_if K socket ifindex w =
           (Return (fst (fst (socket_SIOCGIFNAME K socket ifindex (replicate IFNAMSIZ 0) w))),
            snd (socket_SIOCGIFNAME K socket ifindex (replicate IFNAMSIZ 0) w))"
    using assms by (simp add: bind_if_nonneg [OF nonneg] bind_name_pos split_beta)
  have w': "snd (socket_SIOCGIFNAME K socket ifindex (replicate IFNAMSIZ 0) w) =
      world_after K (Ioctl_SIOCGIFNAME socket ifindex) w"
    by (simp add: resolver_eq)
  show ?thesis
    by (simp add: eq w' new_calls_after is_bindtodevice_def)
qed

theorem socket_bind_if_resolve_error_witness:
  "0 <s (7 :: cint) \<and>
   fst (fst (socket_SIOCGIFNAME linux 3 7 (replicate IFNAMSIZ 0) (start lo_eth0))) \<noteq> 0 \<and>
   fst (socket_bind_if linux 3 7 (start lo_eth0)) = Return (- ENODEV) \<and>
   new_calls (start lo_eth0) (snd (socket_bind_if linux 3 7 (start lo_eth0))) =
     [(Ioctl_SIOCGIFNAME 3 7, k_fail ENODEV)]"
proof -
  have pos: "0 <s (7 :: cint)" by (simp add: word_sless_alt)
  have r: "fst (fst (socket_SIOCGIFNAME linux 3 7 (replicate IFNAMSIZ 0) (start lo_eth0))) = - ENODEV"
    by (simp add: resolver_eq reply_of_def start_def lo_eth0_def k_fail_def)
  have nz: "fst (fst (socket_SIOCGIFNAME linux 3 7 (replicate IFNAMSIZ 0) (start lo_eth0))) \<noteq> 0"
    by (simp add: r ENODEV_def)
  have rep: "reply_of linux (Ioctl_SIOCGIFNAME 3 7) (start lo_eth0) = k_fail ENODEV"
    by (simp add: reply_of_def start_def lo_eth0_def)
  note t = socket_bind_if_resolve_error [OF pos nz, unfolded r rep]
  from t have a: "fst (socket_bind_if linux 3 7 (start lo_eth0)) = Return (- ENODEV)"
    by simp
  from t have b: "new_calls (start lo_eth0) (snd (socket_bind_if linux 3 7 (start lo_eth0))) =
     [(Ioctl_SIOCGIFNAME 3 7, k_fail ENODEV)]"
    by blast
  from pos nz a b show ?thesis by blast
qed

lemma bindtoif_eq:
  "bind_SO_BINDTOIF K socket ifindex w =
     ((if 0 <=s sys_ret (reply_of K (Setsockopt_BINDTOIF socket ifindex) w) then Some 0
       else if sys_errno (reply_of K (Setsockopt_BINDTOIF socket ifindex) w) \<noteq> ENOPROTOOPT
       then Some (- sys_errno (reply_of K (Setsockopt_BINDTOIF socket ifindex) w))
       else None),
      world_after K (Setsockopt_BINDTOIF socket ifindex) w)"
  by (simp add: bind_SO_BINDTOIF_def sys_def)

lemma build_with_bindtoif:
  assumes "0 <=s ifindex"
  shows "socket_bind_if_build True K socket ifindex w =
     (if 0 <=s sys_ret (reply_of K (Setsockopt_BINDTOIF socket ifindex) w)
      then (Return 0, world_after K (Setsockopt_BINDTOIF socket ifindex) w)
      else if sys_errno (reply_of K (Setsockopt_BINDTOIF socket ifindex) w) \<noteq> ENOPROTOOPT
      then (Return (- sys_errno (reply_of K (Setsockopt_BINDTOIF socket ifindex) w)),
            world_after K (Setsockopt_BINDTOIF socket ifindex) w)
      else bind_SO_BINDTODEVICE K socket ifindex (replicate IFNAMSIZ 0)
             (world_after K (Setsockopt_BINDTOIF socket ifindex) w))"
  using assms by (simp add: socket_bind_if_build_def bindtoif_eq)

text \<open>The requests of the name-based path.\<close>

lemma bind_name_calls_zero:
  "calls (snd (bind_SO_BINDTODEVICE K socket 0 (replicate IFNAMSIZ 0) w)) =
     calls w @ [(Setsockopt_BINDTODEVICE socket (replicate IFNAMSIZ 0) 0,
                 reply_of K (Setsockopt_BINDTODEVICE socket (replicate IFNAMSIZ 0) 0) w)]"
  by (simp add: bind_name_zero world_after_def)

lemma bind_name_calls_pos:
  assumes "0 <s ifindex"
  shows "calls (snd (bind_SO_BINDTODEVICE K socket ifindex ifname w)) =
     calls w @ (Ioctl_SIOCGIFNAME socket ifindex, reply_of K (Ioctl_SIOCGIFNAME socket ifindex) w) #
       (if fst (fst (socket_SIOCGIFNAME K socket ifindex ifname w)) \<noteq> 0 then []
        else [(Setsockopt_BINDTODEVICE socket (snd (fst (socket_SIOCGIFNAME K socket ifindex ifname w)))
                 (strlen_past (snd (fst (socket_SIOCGIFNAME K socket ifindex ifname w))) (past_ifname w)),
               reply_of K (Setsockopt_BINDTODEVICE socket
                  (snd (fst (socket_SIOCGIFNAME K socket ifindex ifname w)))
                  (strlen_past (snd (fst (socket_SIOCGIFNAME K socket ifindex ifname w))) (past_ifname w)))
                 (world_after K (Ioctl_SIOCGIFNAME socket ifindex) w))])"
proof -
  have w': "snd (socket_SIOCGIFNAME K socket ifindex ifname w) =
      world_after K (Ioctl_SIOCGIFNAME socket ifindex) w"
    by (simp add: resolver_eq)
  show ?thesis
    by (simp add: bind_name_pos [OF assms] split_beta w' past_after)
      (simp add: world_after_def)
qed

lemma bind_name_no_bindtoif:
  assumes "0 <=s ifindex"
  shows "\<not> list_ex is_bindtoif
           (new_calls w (snd (bind_SO_BINDTODEVICE K socket ifindex (replicate IFNAMSIZ 0) w)))"
proof (cases "0 <s ifindex")
  case True
  show ?thesis
    by (simp add: new_calls_def bind_name_calls_pos [OF True] is_bindtoif_def)
next
  case False
  with assms have "ifindex = 0" using nonneg_cases by blast
  then show ?thesis
    by (simp add: new_calls_def bind_name_calls_zero is_bindtoif_def)
qed

lemma bind_name_calls_extend:
  assumes "0 <=s ifindex"
  shows "\<exists>xs. calls (snd (bind_SO_BINDTODEVICE K socket ifindex (replicate IFNAMSIZ 0) w)) = calls w @ xs"
proof (cases "0 <s ifindex")
  case True
  show ?thesis
    by (simp add: bind_name_calls_pos [OF True])
next
  case False
  with assms have "ifindex = 0" using nonneg_cases by blast
  then show ?thesis
    by (simp add: bind_name_calls_zero)
qed

lemma build_first_call:
  assumes "0 <=s ifindex"
  shows "take 1 (new_calls w (snd (socket_bind_if_build True K socket ifindex w))) =
           [(Setsockopt_BINDTOIF socket ifindex, reply_of K (Setsockopt_BINDTOIF socket ifindex) w)]"
proof -
  let ?w1 = "world_after K (Setsockopt_BINDTOIF socket ifindex) w"
  obtain xs where xs: "calls (snd (bind_SO_BINDTODEVICE K socket ifindex (replicate IFNAMSIZ 0) ?w1)) = calls ?w1 @ xs"
    using bind_name_calls_extend [OF assms] by blast
  have a: "new_calls w ?w1 = [(Setsockopt_BINDTOIF socket ifindex, reply_of K (Setsockopt_BINDTOIF socket ifindex) w)]"
    by (rule new_calls_after)
  have b: "new_calls w (snd (bind_SO_BINDTODEVICE K socket ifindex (replicate IFNAMSIZ 0) ?w1)) =
      (Setsockopt_BINDTOIF socket ifindex, reply_of K (Setsockopt_BINDTOIF socket ifindex) w) # xs"
    by (simp add: new_calls_def xs) (simp add: world_after_def)
  show ?thesis
    by (simp add: build_with_bindtoif [OF assms] a b)
qed

text \<open>
  Claim C1, amended. \<^verbatim>\<open>socket_bind_if\<close> as it is built, with the \<^verbatim>\<open>SO_BINDTOIF\<close> block
  under \<^verbatim>\<open>#if 0\<close>, never attempts the index-based strategy: for every index that is
  not negative it is the name-based path and makes no \<^verbatim>\<open>SO_BINDTOIF\<close> request. Only a
  build with the block compiled in makes \<^verbatim>\<open>SO_BINDTOIF\<close> with the raw index its first
  request; it returns 0 when that succeeds, returns the negated \<^verbatim>\<open>errno\<close> at once for
  any error other than \<^verbatim>\<open>ENOPROTOOPT\<close>, and goes on to the name-based path only on
  \<^verbatim>\<open>ENOPROTOOPT\<close>.
\<close>

theorem socket_bind_if_strategies:
  assumes "0 <=s ifindex"
  shows "socket_bind_if K socket ifindex w =
           bind_SO_BINDTODEVICE K socket ifindex (replicate IFNAMSIZ 0) w \<and>
         \<not> list_ex is_bindtoif (new_calls w (snd (socket_bind_if K socket ifindex w))) \<and>
         take 1 (new_calls w (snd (socket_bind_if_build True K socket ifindex w))) =
           [(Setsockopt_BINDTOIF socket ifindex, reply_of K (Setsockopt_BINDTOIF socket ifindex) w)] \<and>
         socket_bind_if_build True K socket ifindex w =
           (if 0 <=s sys_ret (reply_of K (Setsockopt_BINDTOIF socket ifindex) w)
            then (Return 0, world_after K (Setsockopt_BINDTOIF socket ifindex) w)
            else if sys_errno (reply_of K (Setsockopt_BINDTOIF socket ifindex) w) \<noteq> ENOPROTOOPT
            then (Return (- sys_errno (reply_of K (Setsockopt_BINDTOIF socket ifindex) w)),
                  world_after K (Setsockopt_BINDTOIF socket ifindex) w)
            else bind_SO_BINDTODEVICE K socket ifindex (replicate IFNAMSIZ 0)
                   (world_after K (Setsockopt_BINDTOIF socket ifindex) w))"
proof (intro conjI)
  show "socket_bind_if K socket ifindex w =
          bind_SO_BINDTODEVICE K socket ifindex (replicate IFNAMSIZ 0) w"
    by (rule bind_if_nonneg [OF assms])
  then show "\<not> list_ex is_bindtoif (new_calls w (snd (socket_bind_if K socket ifindex w)))"
    using bind_name_no_bindtoif [OF assms, of w K socket] by simp
  show "take 1 (new_calls w (snd (socket_bind_if_build True K socket ifindex w))) =
          [(Setsockopt_BINDTOIF socket ifindex, reply_of K (Setsockopt_BINDTOIF socket ifindex) w)]"
    by (rule build_first_call [OF assms])
  show "socket_bind_if_build True K socket ifindex w =
           (if 0 <=s sys_ret (reply_of K (Setsockopt_BINDTOIF socket ifindex) w)
            then (Return 0, world_after K (Setsockopt_BINDTOIF socket ifindex) w)
            else if sys_errno (reply_of K (Setsockopt_BINDTOIF socket ifindex) w) \<noteq> ENOPROTOOPT
            then (Return (- sys_errno (reply_of K (Setsockopt_BINDTOIF socket ifindex) w)),
                  world_after K (Setsockopt_BINDTOIF socket ifindex) w)
            else bind_SO_BINDTODEVICE K socket ifindex (replicate IFNAMSIZ 0)
                   (world_after K (Setsockopt_BINDTOIF socket ifindex) w))"
    by (rule build_with_bindtoif [OF assms])
qed

lemma eth0_calls:
  "new_calls (start lo_eth0) (snd (socket_bind_if linux 3 2 (start lo_eth0))) =
     [(Ioctl_SIOCGIFNAME 3 2, k_ok [101, 116, 104, 48, 0]),
      (Setsockopt_BINDTODEVICE 3 [101, 116, 104, 48, 0, 0, 0, 0, 0, 0, 0, 0, 0, 0, 0, 0] 4, k_ok [])]"
  by code_simp

theorem socket_bind_if_strategies_witness:
  "0 <=s (2 :: cint) \<and>
   \<not> list_ex is_bindtoif (new_calls (start lo_eth0) (snd (socket_bind_if linux 3 2 (start lo_eth0)))) \<and>
   take 1 (new_calls (start lo_eth0) (snd (socket_bind_if_build True linux 3 2 (start lo_eth0)))) =
     [(Setsockopt_BINDTOIF 3 2, k_fail ENOPROTOOPT)]"
proof -
  have a: "0 <=s (2 :: cint)" by (simp add: word_sle_eq)
  have rep: "reply_of linux (Setsockopt_BINDTOIF 3 2) (start lo_eth0) = k_fail ENOPROTOOPT"
    by (simp add: reply_of_def)
  note t = socket_bind_if_strategies [OF a, of linux 3 "start lo_eth0", unfolded rep]
  from t a show ?thesis by blast
qed

text \<open>
  Claim C1, as stated, fails: binding socket 3 to index 2 makes two requests, the ioctl
  and \<^verbatim>\<open>SO_BINDTODEVICE\<close>. The first request is not the index-based one, and the
  name-based path is taken although the kernel never reported an unknown option.
\<close>

theorem socket_bind_if_skips_bindtoif:
  "0 <=s (2 :: cint) \<and>
   new_calls (start lo_eth0) (snd (socket_bind_if linux 3 2 (start lo_eth0))) =
     [(Ioctl_SIOCGIFNAME 3 2, k_ok [101, 116, 104, 48, 0]),
      (Setsockopt_BINDTODEVICE 3 [101, 116, 104, 48, 0, 0, 0, 0, 0, 0, 0, 0, 0, 0, 0, 0] 4, k_ok [])] \<and>
   \<not> is_bindtoif (hd (new_calls (start lo_eth0) (snd (socket_bind_if linux 3 2 (start lo_eth0)))))"
  by (simp add: eth0_calls is_bindtoif_def word_sle_eq)

lemma new_calls_append: "calls w' = calls w @ xs \<Longrightarrow> new_calls w w' = xs"
  by (simp add: new_calls_def)

lemma resolver_world:
  "snd (socket_SIOCGIFNAME K socket ifindex ifname w) = world_after K (Ioctl_SIOCGIFNAME socket ifindex) w"
  by (simp add: resolver_eq)

lemma resolver_value:
  "fst (fst (socket_SIOCGIFNAME K socket ifindex ifname w)) =
     (if sys_ret (reply_of K (Ioctl_SIOCGIFNAME socket ifindex) w) <s 0
      then - sys_errno (reply_of K (Ioctl_SIOCGIFNAME socket ifindex) w) else 0)"
  by (simp add: resolver_eq)

lemma resolver_length:
  "length ifname = IFNAMSIZ \<Longrightarrow>
     length (snd (fst (socket_SIOCGIFNAME K socket ifindex ifname w))) = IFNAMSIZ"
  by (simp add: resolver_eq memcpy_whole length_write_bytes)

lemma bind_if_zero_eq:
  "socket_bind_if K socket 0 w =
     (Return (if sys_ret (reply_of K (Setsockopt_BINDTODEVICE socket (replicate IFNAMSIZ 0) 0) w) <s 0
              then - sys_errno (reply_of K (Setsockopt_BINDTODEVICE socket (replicate IFNAMSIZ 0) 0) w)
              else 0),
      world_after K (Setsockopt_BINDTODEVICE socket (replicate IFNAMSIZ 0) 0) w)"
proof -
  have "0 <=s (0 :: cint)" by (simp add: word_sle_eq)
  then show ?thesis by (simp add: bind_if_nonneg bind_name_zero)
qed

lemma bind_if_zero_calls:
  "new_calls w (snd (socket_bind_if K socket 0 w)) =
     [(Setsockopt_BINDTODEVICE socket (replicate IFNAMSIZ 0) 0,
       reply_of K (Setsockopt_BINDTODEVICE socket (replicate IFNAMSIZ 0) 0) w)]"
  by (simp add: bind_if_zero_eq new_calls_after)

lemma bind_if_pos_calls:
  assumes "0 <s ifindex"
  shows "new_calls w (snd (socket_bind_if K socket ifindex w)) =
     (Ioctl_SIOCGIFNAME socket ifindex, reply_of K (Ioctl_SIOCGIFNAME socket ifindex) w) #
       (if fst (fst (socket_SIOCGIFNAME K socket ifindex (replicate IFNAMSIZ 0) w)) \<noteq> 0 then []
        else [(Setsockopt_BINDTODEVICE socket
                 (snd (fst (socket_SIOCGIFNAME K socket ifindex (replicate IFNAMSIZ 0) w)))
                 (strlen_past (snd (fst (socket_SIOCGIFNAME K socket ifindex (replicate IFNAMSIZ 0) w)))
                    (past_ifname w)),
               reply_of K (Setsockopt_BINDTODEVICE socket
                  (snd (fst (socket_SIOCGIFNAME K socket ifindex (replicate IFNAMSIZ 0) w)))
                  (strlen_past (snd (fst (socket_SIOCGIFNAME K socket ifindex (replicate IFNAMSIZ 0) w)))
                     (past_ifname w)))
                 (world_after K (Ioctl_SIOCGIFNAME socket ifindex) w))])"
proof -
  from assms have nonneg: "0 <=s ifindex" by (simp add: word_sless_eq)
  show ?thesis
    unfolding bind_if_nonneg [OF nonneg]
    by (rule new_calls_append) (rule bind_name_calls_pos [OF assms])
qed

lemma bind_name_ioctl_pos:
  assumes "0 <=s ifindex"
    and "list_ex is_ioctl (new_calls w (snd (bind_SO_BINDTODEVICE K socket ifindex (replicate IFNAMSIZ 0) w)))"
  shows "0 <s ifindex"
proof (rule ccontr)
  assume "\<not> 0 <s ifindex"
  with assms(1) have z: "ifindex = 0" using nonneg_cases by blast
  have "new_calls w (snd (bind_SO_BINDTODEVICE K socket 0 (replicate IFNAMSIZ 0) w)) =
     [(Setsockopt_BINDTODEVICE socket (replicate IFNAMSIZ 0) 0,
       reply_of K (Setsockopt_BINDTODEVICE socket (replicate IFNAMSIZ 0) 0) w)]"
    by (rule new_calls_append) (rule bind_name_calls_zero)
  with assms(2) z show False by (simp add: is_ioctl_def)
qed

lemma new_calls_trans:
  "calls w1 = calls w @ xs \<Longrightarrow> calls w2 = calls w1 @ ys \<Longrightarrow> new_calls w w2 = xs @ new_calls w1 w2"
  by (simp add: new_calls_def)

lemma build_ioctl_only_on_fallback:
  assumes "list_ex is_ioctl (new_calls w (snd (socket_bind_if_build b K socket ifindex w)))"
  shows "0 <s ifindex \<and>
         (b \<longrightarrow> \<not> 0 <=s sys_ret (reply_of K (Setsockopt_BINDTOIF socket ifindex) w) \<and>
                sys_errno (reply_of K (Setsockopt_BINDTOIF socket ifindex) w) = ENOPROTOOPT)"
proof (cases "0 <=s ifindex")
  case False
  then have "socket_bind_if_build b K socket ifindex w = (AssertFail, w)"
    by (simp add: socket_bind_if_build_def)
  with assms show ?thesis by (simp add: new_calls_same)
next
  case nonneg: True
  show ?thesis
  proof (cases b)
    case False
    with nonneg have "socket_bind_if_build b K socket ifindex w =
        bind_SO_BINDTODEVICE K socket ifindex (replicate IFNAMSIZ 0) w"
      by (simp add: socket_bind_if_build_def)
    with assms False bind_name_ioctl_pos [OF nonneg] show ?thesis by simp
  next
    case True
    let ?c = "Setsockopt_BINDTOIF socket ifindex"
    let ?w1 = "world_after K ?c w"
    have one: "new_calls w ?w1 = [(?c, reply_of K ?c w)]" by (rule new_calls_after)
    have fall: "\<not> 0 <=s sys_ret (reply_of K ?c w) \<and> sys_errno (reply_of K ?c w) = ENOPROTOOPT"
    proof (rule ccontr)
      assume "\<not> ?thesis"
      then have "snd (socket_bind_if_build True K socket ifindex w) = ?w1"
        by (auto simp: build_with_bindtoif [OF nonneg])
      with assms True one show False by (simp add: is_ioctl_def)
    qed
    then have eq: "socket_bind_if_build True K socket ifindex w =
        bind_SO_BINDTODEVICE K socket ifindex (replicate IFNAMSIZ 0) ?w1"
      by (simp add: build_with_bindtoif [OF nonneg])
    obtain ys where ys: "calls (snd (bind_SO_BINDTODEVICE K socket ifindex (replicate IFNAMSIZ 0) ?w1)) =
        calls ?w1 @ ys"
      using bind_name_calls_extend [OF nonneg] by blast
    have w1: "calls ?w1 = calls w @ [(?c, reply_of K ?c w)]" by (simp add: world_after_def)
    have "new_calls w (snd (bind_SO_BINDTODEVICE K socket ifindex (replicate IFNAMSIZ 0) ?w1)) =
        [(?c, reply_of K ?c w)] @
        new_calls ?w1 (snd (bind_SO_BINDTODEVICE K socket ifindex (replicate IFNAMSIZ 0) ?w1))"
      by (rule new_calls_trans [OF w1 ys])
    with assms True eq have
      "list_ex is_ioctl (new_calls ?w1 (snd (bind_SO_BINDTODEVICE K socket ifindex (replicate IFNAMSIZ 0) ?w1)))"
      by (simp add: is_ioctl_def)
    then have "0 <s ifindex" by (rule bind_name_ioctl_pos [OF nonneg])
    with fall show ?thesis by simp
  qed
qed

lemma linux_clear:
  "bound_dev_if (kstate (snd (socket_bind_if linux socket 0 w))) socket = 0"
  by (simp add: bind_if_zero_eq world_after_def cstring_def)

text \<open>
  Claim C3. With index 0, \<^verbatim>\<open>socket_bind_if\<close> makes one request, \<^verbatim>\<open>SO_BINDTODEVICE\<close> with
  the zeroed buffer and length 0 (the empty name), and returns its result; it makes no
  ioctl. In either build an ioctl is made only for a positive index, and with the
  \<^verbatim>\<open>SO_BINDTOIF\<close> block compiled in only after that request failed with
  \<^verbatim>\<open>ENOPROTOOPT\<close>. On the kernel of the spec the socket is unbound afterwards, whatever
  it was bound to.
\<close>

theorem socket_bind_if_zero:
  "socket_bind_if K socket 0 w =
     (Return (if sys_ret (reply_of K (Setsockopt_BINDTODEVICE socket (replicate IFNAMSIZ 0) 0) w) <s 0
              then - sys_errno (reply_of K (Setsockopt_BINDTODEVICE socket (replicate IFNAMSIZ 0) 0) w)
              else 0),
      world_after K (Setsockopt_BINDTODEVICE socket (replicate IFNAMSIZ 0) 0) w) \<and>
   cstring (replicate IFNAMSIZ 0) = [] \<and>
   \<not> list_ex is_ioctl (new_calls w (snd (socket_bind_if K socket 0 w))) \<and>
   (list_ex is_ioctl (new_calls w (snd (socket_bind_if_build b K socket ifindex w))) \<longrightarrow>
      0 <s ifindex \<and>
      (b \<longrightarrow> \<not> 0 <=s sys_ret (reply_of K (Setsockopt_BINDTOIF socket ifindex) w) \<and>
             sys_errno (reply_of K (Setsockopt_BINDTOIF socket ifindex) w) = ENOPROTOOPT)) \<and>
   bound_dev_if (kstate (snd (socket_bind_if linux socket 0 v))) socket = 0"
proof (intro conjI impI)
  show "socket_bind_if K socket 0 w =
     (Return (if sys_ret (reply_of K (Setsockopt_BINDTODEVICE socket (replicate IFNAMSIZ 0) 0) w) <s 0
              then - sys_errno (reply_of K (Setsockopt_BINDTODEVICE socket (replicate IFNAMSIZ 0) 0) w)
              else 0),
      world_after K (Setsockopt_BINDTODEVICE socket (replicate IFNAMSIZ 0) 0) w)"
    by (rule bind_if_zero_eq)
  show "cstring (replicate IFNAMSIZ 0) = []" by (rule cstring_zeros)
  show "\<not> list_ex is_ioctl (new_calls w (snd (socket_bind_if K socket 0 w)))"
    by (simp add: bind_if_zero_calls is_ioctl_def)
  show "bound_dev_if (kstate (snd (socket_bind_if linux socket 0 v))) socket = 0"
    by (rule linux_clear)
next
  assume a: "list_ex is_ioctl (new_calls w (snd (socket_bind_if_build b K socket ifindex w)))"
  from build_ioctl_only_on_fallback [OF a] show "0 <s ifindex" by blast
next
  assume a: "list_ex is_ioctl (new_calls w (snd (socket_bind_if_build b K socket ifindex w)))"
    and b
  with build_ioctl_only_on_fallback [OF a]
  show "\<not> 0 <=s sys_ret (reply_of K (Setsockopt_BINDTOIF socket ifindex) w)"
    and "sys_errno (reply_of K (Setsockopt_BINDTOIF socket ifindex) w) = ENOPROTOOPT"
    by blast+
qed

theorem socket_bind_if_zero_witness:
  "list_ex is_ioctl
     (new_calls (start lo_eth0_bound) (snd (socket_bind_if_build True linux 3 2 (start lo_eth0_bound)))) \<and>
   0 <s (2 :: cint) \<and>
   sys_errno (reply_of linux (Setsockopt_BINDTOIF 3 2) (start lo_eth0_bound)) = ENOPROTOOPT \<and>
   bound_dev_if (kstate (start lo_eth0_bound)) 3 = 2 \<and>
   bound_dev_if (kstate (snd (socket_bind_if linux 3 0 (start lo_eth0_bound)))) 3 = 0"
proof -
  have a: "list_ex is_ioctl
     (new_calls (start lo_eth0_bound) (snd (socket_bind_if_build True linux 3 2 (start lo_eth0_bound))))"
    by code_simp
  have b: "bound_dev_if (kstate (start lo_eth0_bound)) 3 = 2"
    by (simp add: start_def lo_eth0_bound_def)
  from socket_bind_if_zero [of linux 3 "start lo_eth0_bound" True 2 "start lo_eth0_bound"] a b
  show ?thesis by blast
qed

lemma bind_if_neg_calls:
  "ifindex <s 0 \<Longrightarrow> new_calls w (snd (socket_bind_if K socket ifindex w)) = []"
  by (simp add: socket_bind_if_def bind_if_negative new_calls_same)

lemma strlen_facts:
  assumes "strlen buf = Some n" and "length buf = IFNAMSIZ"
  shows "n = length (cstring buf) \<and> n < IFNAMSIZ"
  using strlen_Some [OF assms(1)] assms(2) by simp

text \<open>
  Without a terminator in the resolved name the length passed is not below
  \<^verbatim>\<open>IFNAMSIZ\<close>: \<^verbatim>\<open>strlen\<close> counts the whole array and the bytes after it.
\<close>

lemma bind_if_overrun:
  assumes "0 <s ifindex"
    and "fst (fst (socket_SIOCGIFNAME K socket ifindex (replicate IFNAMSIZ 0) w)) = 0"
    and "\<not> zero_terminated (snd (fst (socket_SIOCGIFNAME K socket ifindex (replicate IFNAMSIZ 0) w)))"
  shows "new_calls w (snd (socket_bind_if K socket ifindex w)) =
        [(Ioctl_SIOCGIFNAME socket ifindex, reply_of K (Ioctl_SIOCGIFNAME socket ifindex) w),
         (Setsockopt_BINDTODEVICE socket
            (snd (fst (socket_SIOCGIFNAME K socket ifindex (replicate IFNAMSIZ 0) w)))
            (IFNAMSIZ + length (cstring (past_ifname w))),
          reply_of K (Setsockopt_BINDTODEVICE socket
            (snd (fst (socket_SIOCGIFNAME K socket ifindex (replicate IFNAMSIZ 0) w)))
            (IFNAMSIZ + length (cstring (past_ifname w))))
            (world_after K (Ioctl_SIOCGIFNAME socket ifindex) w))]"
proof -
  let ?buf = "snd (fst (socket_SIOCGIFNAME K socket ifindex (replicate IFNAMSIZ 0) w))"
  have len: "length ?buf = IFNAMSIZ" by (rule resolver_length) simp
  from assms(3) have "strlen_past ?buf (past_ifname w) = IFNAMSIZ + length (cstring (past_ifname w))"
    by (simp add: zero_terminated_def strlen_past_overrun len)
  with assms(2) show ?thesis by (simp add: bind_if_pos_calls [OF assms(1)])
qed

lemma overrun_example:
  "new_calls (start ()\<lparr>past_ifname := [1, 2, 3, 4, 5, 6]\<rparr>)
     (snd (socket_bind_if unterminating 3 1 (start ()\<lparr>past_ifname := [1, 2, 3, 4, 5, 6]\<rparr>))) =
     [(Ioctl_SIOCGIFNAME 3 1, k_ok (replicate IFNAMSIZ 65)),
      (Setsockopt_BINDTODEVICE 3 (replicate IFNAMSIZ 65) 22, k_ok (replicate IFNAMSIZ 65))]"
  by code_simp

text \<open>
  Claim C6. When the name the resolver stored is zero-terminated, as the resolver
  documents, every \<^verbatim>\<open>SO_BINDTODEVICE\<close> request of \<^verbatim>\<open>socket_bind_if\<close> is on the socket given,
  with the \<^verbatim>\<open>IFNAMSIZ\<close>-byte buffer \<^verbatim>\<open>ifname\<close> (zeroed for index 0, else as the resolver
  left it) and as length the number of bytes before its first zero byte, which is less
  than \<^verbatim>\<open>IFNAMSIZ\<close>. With index 0 the request is made with length 0; with a positive
  index, a resolver that returned 0 and a zero-terminated name, the request is made with
  the length of that name.
\<close>

theorem socket_bind_if_optlen:
  "((Setsockopt_BINDTODEVICE s buf n, rep) \<in> set (new_calls w (snd (socket_bind_if K socket ifindex w))) \<and>
    (0 <s ifindex \<longrightarrow>
       zero_terminated (snd (fst (socket_SIOCGIFNAME K socket ifindex (replicate IFNAMSIZ 0) w)))) \<longrightarrow>
      s = socket \<and> length buf = IFNAMSIZ \<and> strlen buf = Some n \<and> n = length (cstring buf) \<and>
      n < IFNAMSIZ \<and>
      buf = (if ifindex = 0 then replicate IFNAMSIZ 0
             else snd (fst (socket_SIOCGIFNAME K socket ifindex (replicate IFNAMSIZ 0) w)))) \<and>
   new_calls w (snd (socket_bind_if K socket 0 w)) =
     [(Setsockopt_BINDTODEVICE socket (replicate IFNAMSIZ 0) 0,
       reply_of K (Setsockopt_BINDTODEVICE socket (replicate IFNAMSIZ 0) 0) w)] \<and>
   (0 <s ifindex \<and>
    fst (fst (socket_SIOCGIFNAME K socket ifindex (replicate IFNAMSIZ 0) w)) = 0 \<and>
    zero_terminated (snd (fst (socket_SIOCGIFNAME K socket ifindex (replicate IFNAMSIZ 0) w))) \<longrightarrow>
      new_calls w (snd (socket_bind_if K socket ifindex w)) =
        [(Ioctl_SIOCGIFNAME socket ifindex, reply_of K (Ioctl_SIOCGIFNAME socket ifindex) w),
         (Setsockopt_BINDTODEVICE socket
            (snd (fst (socket_SIOCGIFNAME K socket ifindex (replicate IFNAMSIZ 0) w)))
            (length (cstring (snd (fst (socket_SIOCGIFNAME K socket ifindex (replicate IFNAMSIZ 0) w))))),
          reply_of K (Setsockopt_BINDTODEVICE socket
            (snd (fst (socket_SIOCGIFNAME K socket ifindex (replicate IFNAMSIZ 0) w)))
            (length (cstring (snd (fst (socket_SIOCGIFNAME K socket ifindex (replicate IFNAMSIZ 0) w))))))
            (world_after K (Ioctl_SIOCGIFNAME socket ifindex) w))])"
proof -
  let ?buf = "snd (fst (socket_SIOCGIFNAME K socket ifindex (replicate IFNAMSIZ 0) w))"
  have len: "length ?buf = IFNAMSIZ" by (rule resolver_length) simp
  have first: "s = socket \<and> length buf = IFNAMSIZ \<and> strlen buf = Some n \<and> n = length (cstring buf) \<and>
      n < IFNAMSIZ \<and> buf = (if ifindex = 0 then replicate IFNAMSIZ 0 else ?buf)"
    if mem: "(Setsockopt_BINDTODEVICE s buf n, rep) \<in> set (new_calls w (snd (socket_bind_if K socket ifindex w)))"
      and nul: "0 <s ifindex \<longrightarrow> zero_terminated ?buf"
  proof -
    consider (neg) "ifindex <s 0" | (zero) "ifindex = 0" | (pos) "0 <s ifindex"
      using nonneg_cases [of ifindex] sle_iff_not_sless [of ifindex] by blast
    then show ?thesis
    proof cases
      case neg
      with mem show ?thesis by (simp add: bind_if_neg_calls)
    next
      case zero
      with mem have "s = socket \<and> buf = replicate IFNAMSIZ 0 \<and> n = 0"
        by (simp add: bind_if_zero_calls)
      moreover have "0 < IFNAMSIZ" by (simp add: IFNAMSIZ_def)
      ultimately show ?thesis using zero by (simp add: strlen_zeros cstring_zeros)
    next
      case pos
      then have nz: "ifindex \<noteq> 0" using not_pos_zero by blast
      from nul pos have zt: "0 \<in> set ?buf" by (simp add: zero_terminated_def)
      from mem have "s = socket \<and> buf = ?buf \<and> n = strlen_past ?buf (past_ifname w)"
        by (auto simp: bind_if_pos_calls [OF pos] split: if_splits)
      with zt have "s = socket \<and> buf = ?buf \<and> strlen ?buf = Some n"
        by (simp add: strlen_past_terminated strlen_cstring)
      with nz len strlen_facts [of ?buf n] show ?thesis by simp
    qed
  qed
  have third: "new_calls w (snd (socket_bind_if K socket ifindex w)) =
        [(Ioctl_SIOCGIFNAME socket ifindex, reply_of K (Ioctl_SIOCGIFNAME socket ifindex) w),
         (Setsockopt_BINDTODEVICE socket ?buf (length (cstring ?buf)),
          reply_of K (Setsockopt_BINDTODEVICE socket ?buf (length (cstring ?buf)))
            (world_after K (Ioctl_SIOCGIFNAME socket ifindex) w))]"
    if pos: "0 <s ifindex"
      and ok: "fst (fst (socket_SIOCGIFNAME K socket ifindex (replicate IFNAMSIZ 0) w)) = 0"
      and zt: "zero_terminated ?buf"
  proof -
    from zt have "strlen_past ?buf (past_ifname w) = length (cstring ?buf)"
      by (simp add: zero_terminated_def strlen_past_terminated)
    with ok show ?thesis by (simp add: bind_if_pos_calls [OF pos])
  qed
  from first third show ?thesis by (simp only: bind_if_zero_calls) blast
qed

theorem socket_bind_if_optlen_witness:
  "(Setsockopt_BINDTODEVICE 3 [101, 116, 104, 48, 0, 0, 0, 0, 0, 0, 0, 0, 0, 0, 0, 0] 4, k_ok [])
     \<in> set (new_calls (start lo_eth0) (snd (socket_bind_if linux 3 2 (start lo_eth0)))) \<and>
   strlen [101, 116, 104, 48, 0, 0, 0, 0, 0, 0, 0, 0, 0, 0, 0, 0] = Some 4 \<and>
   0 <s (2 :: cint) \<and>
   fst (fst (socket_SIOCGIFNAME linux 3 2 (replicate IFNAMSIZ 0) (start lo_eth0))) = 0 \<and>
   zero_terminated (snd (fst (socket_SIOCGIFNAME linux 3 2 (replicate IFNAMSIZ 0) (start lo_eth0)))) \<and>
   length (new_calls (start lo_eth0) (snd (socket_bind_if linux 3 2 (start lo_eth0)))) = 2"
proof -
  have a: "(Setsockopt_BINDTODEVICE 3 [101, 116, 104, 48, 0, 0, 0, 0, 0, 0, 0, 0, 0, 0, 0, 0] 4, k_ok [])
     \<in> set (new_calls (start lo_eth0) (snd (socket_bind_if linux 3 2 (start lo_eth0))))"
    by (simp add: eth0_calls)
  have b: "0 <s (2 :: cint)" by (simp add: word_sless_alt)
  have c: "fst (fst (socket_SIOCGIFNAME linux 3 2 (replicate IFNAMSIZ 0) (start lo_eth0))) = 0"
    by code_simp
  have d: "zero_terminated (snd (fst (socket_SIOCGIFNAME linux 3 2 (replicate IFNAMSIZ 0) (start lo_eth0))))"
    by code_simp
  note t = socket_bind_if_optlen [of 3 "[101, 116, 104, 48, 0, 0, 0, 0, 0, 0, 0, 0, 0, 0, 0, 0]" 4
      "k_ok []" "start lo_eth0" linux 3 2]
  from t a d have e: "strlen [101, 116, 104, 48, 0, 0, 0, 0, 0, 0, 0, 0, 0, 0, 0, 0] = Some 4"
    by blast
  from t b c d have "\<exists>x y. new_calls (start lo_eth0) (snd (socket_bind_if linux 3 2 (start lo_eth0))) = [x, y]"
    by blast
  then have f: "length (new_calls (start lo_eth0) (snd (socket_bind_if linux 3 2 (start lo_eth0)))) = 2"
    by auto
  from a b c d e f show ?thesis by blast
qed

section \<open>Return values\<close>

lemma contract_neg:
  "errno_contract K \<Longrightarrow> sys_ret (reply_of K c w) <s 0 \<Longrightarrow> - sys_errno (reply_of K c w) <s 0"
  by (simp add: errno_contract_def reply_of_def neg_of_pos)

lemma bind_if_pos_value:
  assumes "0 <s ifindex"
  shows "fst (socket_bind_if K socket ifindex w) =
     (if fst (fst (socket_SIOCGIFNAME K socket ifindex (replicate IFNAMSIZ 0) w)) \<noteq> 0
      then Return (fst (fst (socket_SIOCGIFNAME K socket ifindex (replicate IFNAMSIZ 0) w)))
      else Return (if sys_ret (reply_of K (Setsockopt_BINDTODEVICE socket
                             (snd (fst (socket_SIOCGIFNAME K socket ifindex (replicate IFNAMSIZ 0) w)))
                             (strlen_past
                                (snd (fst (socket_SIOCGIFNAME K socket ifindex (replicate IFNAMSIZ 0) w)))
                                (past_ifname w)))
                             (world_after K (Ioctl_SIOCGIFNAME socket ifindex) w)) <s 0
                   then - sys_errno (reply_of K (Setsockopt_BINDTODEVICE socket
                             (snd (fst (socket_SIOCGIFNAME K socket ifindex (replicate IFNAMSIZ 0) w)))
                             (strlen_past
                                (snd (fst (socket_SIOCGIFNAME K socket ifindex (replicate IFNAMSIZ 0) w)))
                                (past_ifname w)))
                             (world_after K (Ioctl_SIOCGIFNAME socket ifindex) w))
                   else 0))"
proof -
  from assms have nonneg: "0 <=s ifindex" by (simp add: word_sless_eq)
  show ?thesis
    by (simp add: bind_if_nonneg [OF nonneg] bind_name_pos [OF assms] split_beta resolver_world
        past_after)
qed

lemma documented_single:
  assumes "errno_contract K"
  shows "documented_return
           (if sys_ret (reply_of K c w) <s 0 then - sys_errno (reply_of K c w) else 0)
           [(c, reply_of K c w)]"
  using contract_neg [OF assms, of c w] by (simp add: documented_return_def failed_def)

lemma documented_pair:
  assumes "errno_contract K" and "\<not> sys_ret r1 <s 0"
  shows "documented_return
           (if sys_ret (reply_of K c w) <s 0 then - sys_errno (reply_of K c w) else 0)
           [(c1, r1), (c, reply_of K c w)]"
  using contract_neg [OF assms(1), of c w] assms(2) by (simp add: documented_return_def failed_def)

lemma bind_if_documented:
  assumes K: "errno_contract K" and nonneg: "0 <=s ifindex"
  shows "case fst (socket_bind_if K socket ifindex w) of
           Return v \<Rightarrow> documented_return v (new_calls w (snd (socket_bind_if K socket ifindex w)))
         | AssertFail \<Rightarrow> False"
proof (cases "0 <s ifindex")
  case False
  with nonneg have z: "ifindex = 0" using nonneg_cases by blast
  from documented_single [OF K, of "Setsockopt_BINDTODEVICE socket (replicate IFNAMSIZ 0) 0" w]
  show ?thesis
    unfolding z by (simp add: bind_if_zero_eq new_calls_after split: if_splits)
next
  case pos: True
  let ?c = "Ioctl_SIOCGIFNAME socket ifindex"
  let ?buf = "snd (fst (socket_SIOCGIFNAME K socket ifindex (replicate IFNAMSIZ 0) w))"
  show ?thesis
  proof (cases "sys_ret (reply_of K ?c w) <s 0")
    case True
    then have r: "fst (fst (socket_SIOCGIFNAME K socket ifindex (replicate IFNAMSIZ 0) w)) =
        - sys_errno (reply_of K ?c w)"
      by (simp add: resolver_value)
    have nz: "- sys_errno (reply_of K ?c w) \<noteq> 0"
      using contract_neg [OF K True] by (rule neg_nonzero)
    from documented_single [OF K, of ?c w] True
    have "documented_return (- sys_errno (reply_of K ?c w)) [(?c, reply_of K ?c w)]" by simp
    with nz show ?thesis
      by (simp add: bind_if_pos_value [OF pos] bind_if_pos_calls [OF pos] r)
  next
    case False
    then have r: "fst (fst (socket_SIOCGIFNAME K socket ifindex (replicate IFNAMSIZ 0) w)) = 0"
      by (simp add: resolver_value)
    from documented_pair [OF K False,
        of "Setsockopt_BINDTODEVICE socket ?buf (strlen_past ?buf (past_ifname w))"
          "world_after K ?c w" ?c]
    show ?thesis
      by (simp add: bind_if_pos_value [OF pos] bind_if_pos_calls [OF pos] r)
  qed
qed

lemma linux_errno_contract: "errno_contract linux"
  unfolding errno_contract_def
proof (intro allI impI)
  fix k c
  assume "sys_ret (fst (linux k c)) <s 0"
  then show "0 <s sys_errno (fst (linux k c))"
    by (cases c)
      (auto simp: k_fail_def k_ok_def ENODEV_def ENOPROTOOPT_def word_sless_alt Let_def
        split: option.splits if_splits)
qed

text \<open>
  Claim C7. On a kernel that leaves a positive \<^verbatim>\<open>errno\<close> after a failed request:
  \<^verbatim>\<open>socket_SIOCGIFNAME\<close> makes one request and returns 0 when it succeeded, the negated
  \<^verbatim>\<open>errno\<close> when it failed. \<^verbatim>\<open>socket_bind_if\<close>, for an index that is not negative,
  returns 0 when none of its requests failed; otherwise it returns the negated \<^verbatim>\<open>errno\<close>
  of the request that failed, a negative value, and that request is the last one it
  made: nothing is retried or passed over. It returns nothing else, also when the name
  the resolver stored has no terminator.
\<close>

theorem documented_return_values:
  assumes "errno_contract K"
  shows "fst (fst (socket_SIOCGIFNAME K socket ifindex ifname w)) =
           (if sys_ret (reply_of K (Ioctl_SIOCGIFNAME socket ifindex) w) <s 0
            then - sys_errno (reply_of K (Ioctl_SIOCGIFNAME socket ifindex) w) else 0) \<and>
         new_calls w (snd (socket_SIOCGIFNAME K socket ifindex ifname w)) =
           [(Ioctl_SIOCGIFNAME socket ifindex, reply_of K (Ioctl_SIOCGIFNAME socket ifindex) w)] \<and>
         documented_return (fst (fst (socket_SIOCGIFNAME K socket ifindex ifname w)))
           (new_calls w (snd (socket_SIOCGIFNAME K socket ifindex ifname w))) \<and>
         (0 <=s ifindex \<longrightarrow>
            (case fst (socket_bind_if K socket ifindex w) of
               Return v \<Rightarrow> documented_return v (new_calls w (snd (socket_bind_if K socket ifindex w)))
             | AssertFail \<Rightarrow> False))"
proof (intro conjI impI)
  show "fst (fst (socket_SIOCGIFNAME K socket ifindex ifname w)) =
           (if sys_ret (reply_of K (Ioctl_SIOCGIFNAME socket ifindex) w) <s 0
            then - sys_errno (reply_of K (Ioctl_SIOCGIFNAME socket ifindex) w) else 0)"
    by (rule resolver_value)
  show calls: "new_calls w (snd (socket_SIOCGIFNAME K socket ifindex ifname w)) =
           [(Ioctl_SIOCGIFNAME socket ifindex, reply_of K (Ioctl_SIOCGIFNAME socket ifindex) w)]"
    by (simp add: resolver_world new_calls_after)
  show "documented_return (fst (fst (socket_SIOCGIFNAME K socket ifindex ifname w)))
           (new_calls w (snd (socket_SIOCGIFNAME K socket ifindex ifname w)))"
    unfolding calls resolver_value by (rule documented_single [OF assms])
next
  assume "0 <=s ifindex"
  with assms show "case fst (socket_bind_if K socket ifindex w) of
               Return v \<Rightarrow> documented_return v (new_calls w (snd (socket_bind_if K socket ifindex w)))
             | AssertFail \<Rightarrow> False"
    by (rule bind_if_documented)
qed

theorem documented_return_values_witness:
  "errno_contract linux \<and> 0 <=s (7 :: cint) \<and>
   fst (socket_bind_if linux 3 7 (start lo_eth0)) = Return (- 19) \<and>
   documented_return (- 19) (new_calls (start lo_eth0) (snd (socket_bind_if linux 3 7 (start lo_eth0)))) \<and>
   failed (last (new_calls (start lo_eth0) (snd (socket_bind_if linux 3 7 (start lo_eth0)))))"
proof -
  have a: "0 <=s (7 :: cint)" by (simp add: word_sle_eq)
  have v: "fst (socket_bind_if linux 3 7 (start lo_eth0)) = Return (- 19)" by code_simp
  have f: "failed (last (new_calls (start lo_eth0) (snd (socket_bind_if linux 3 7 (start lo_eth0)))))"
    by code_simp
  from documented_return_values [OF linux_errno_contract, of 3 7 "replicate IFNAMSIZ 0" "start lo_eth0"] a
  have "case fst (socket_bind_if linux 3 7 (start lo_eth0)) of
               Return v \<Rightarrow> documented_return v (new_calls (start lo_eth0) (snd (socket_bind_if linux 3 7 (start lo_eth0))))
             | AssertFail \<Rightarrow> False"
    by blast
  then have d: "documented_return (- 19) (new_calls (start lo_eth0) (snd (socket_bind_if linux 3 7 (start lo_eth0))))"
    by (simp add: v)
  from linux_errno_contract a v d f show ?thesis by blast
qed

section \<open>Idempotence on the kernel of the spec\<close>

lemma strlen_name: "0 \<notin> set nm \<Longrightarrow> strlen (nm @ 0 # rest) = Some (length nm)"
  by (induction nm) auto

lemma cstring_self: "0 \<notin> set nm \<Longrightarrow> cstring nm = nm"
  by (induction nm) (auto simp: cstring_def)

lemma wf_name:
  assumes "wf_netns ns" and "map_of (ifaces ns) i = Some nm"
  shows "valid_ifname nm"
proof -
  from assms(2) have "(i, nm) \<in> set (ifaces ns)" by (rule map_of_SomeD)
  with assms(1) show ?thesis by (auto simp: wf_netns_def list_all_iff)
qed

lemma linux_bind_zero:
  "(fst (socket_bind_if linux s 0 w), kstate (snd (socket_bind_if linux s 0 w))) =
     linux_bind (kstate w) s 0"
  by (simp add: bind_if_zero_eq world_after_def reply_of_def cstring_def linux_bind_def
      k_ok_succeeds)

lemma linux_bind_missing:
  assumes "0 <s i" and "map_of (ifaces (kstate w)) i = None"
  shows "(fst (socket_bind_if linux s i w), kstate (snd (socket_bind_if linux s i w))) =
     linux_bind (kstate w) s i"
proof -
  from assms(1) have nz: "i \<noteq> 0" using not_pos_zero by blast
  have rep: "reply_of linux (Ioctl_SIOCGIFNAME s i) w = k_fail ENODEV"
    using assms(2) by (simp add: reply_of_def)
  have r: "fst (fst (socket_SIOCGIFNAME linux s i (replicate IFNAMSIZ 0) w)) = - ENODEV"
    by (simp add: resolver_value rep k_fail_def word_sless_alt)
  have nonzero: "- ENODEV \<noteq> 0" by (simp add: ENODEV_def)
  have st: "kstate (world_after linux (Ioctl_SIOCGIFNAME s i) w) = kstate w"
    using assms(2) by (simp add: world_after_def)
  from assms(1) r nonzero
  have "socket_bind_if linux s i w = (Return (- ENODEV), world_after linux (Ioctl_SIOCGIFNAME s i) w)"
    using socket_bind_if_def [of linux s i w] bind_if_nonneg [of i linux s w]
      bind_name_pos [OF assms(1), of linux s "replicate IFNAMSIZ 0" w]
    by (simp add: word_sless_eq split_beta resolver_world)
  with nz assms(2) st show ?thesis by (simp add: linux_bind_def)
qed

lemma linux_bind_found:
  assumes pos: "0 <s i" and nm: "map_of (ifaces (kstate w)) i = Some nm" and v: "valid_ifname nm"
  shows "(fst (socket_bind_if linux s i w), kstate (snd (socket_bind_if linux s i w))) =
     linux_bind (kstate w) s i"
proof -
  from pos have nz: "i \<noteq> 0" using not_pos_zero by blast
  from pos have nonneg: "0 <=s i" by (simp add: word_sless_eq)
  from v have vn: "nm \<noteq> []" "0 \<notin> set nm" "length nm < IFNAMSIZ"
    by (simp_all add: valid_ifname_def)
  let ?c = "Ioctl_SIOCGIFNAME s i"
  let ?w1 = "world_after linux ?c w"
  let ?buf = "write_bytes (replicate IFNAMSIZ 0) (nm @ [0])"
  have rep: "reply_of linux ?c w = k_ok (nm @ [0])"
    using nm by (simp add: reply_of_def)
  have res: "socket_SIOCGIFNAME linux s i (replicate IFNAMSIZ 0) w = ((0, ?buf), ?w1)"
    by (simp add: resolver_eq rep k_ok_succeeds memcpy_whole length_write_bytes)
      (simp add: k_ok_def)
  have st1: "kstate ?w1 = kstate w"
    using nm by (simp add: world_after_def)
  have buf: "?buf = nm @ 0 # drop (Suc (length nm)) ?buf"
    using write_bytes_name [OF vn(3), of "[]"] by simp
  have "strlen ?buf = Some (length nm)"
    by (subst buf) (rule strlen_name [OF vn(2)])
  then have sl: "strlen_past ?buf p = length nm" for p
    by (simp add: strlen_past_def)
  have tk: "take (min (length nm) (IFNAMSIZ - Suc 0)) ?buf = nm"
  proof -
    from vn(3) have "min (length nm) (IFNAMSIZ - Suc 0) = length nm" by simp
    then show ?thesis by (subst buf) simp
  qed
  let ?d = "Setsockopt_BINDTODEVICE s ?buf (length nm)"
  have eq: "socket_bind_if linux s i w =
      (Return (if sys_ret (reply_of linux ?d ?w1) <s 0 then - sys_errno (reply_of linux ?d ?w1) else 0),
       world_after linux ?d ?w1)"
    by (simp add: bind_if_nonneg [OF nonneg] bind_name_pos [OF pos] res sl)
  have dev: "linux (kstate w) ?d =
      (case index_of_name (ifaces (kstate w)) nm of
         None \<Rightarrow> (k_fail ENODEV, kstate w)
       | Some j \<Rightarrow> (k_ok [], (kstate w)\<lparr>bound_dev_if := (bound_dev_if (kstate w))(s := j)\<rparr>))"
    using vn(1) by (simp add: tk cstring_self [OF vn(2)] Let_def)
  have rep2: "reply_of linux ?d ?w1 = fst (linux (kstate w) ?d)"
    by (simp add: reply_of_def st1 del: linux.simps)
  have st2: "kstate (world_after linux ?d ?w1) = snd (linux (kstate w) ?d)"
    by (simp add: world_after_def [of linux ?d ?w1] st1 del: linux.simps)
  have out: "(fst (socket_bind_if linux s i w), kstate (snd (socket_bind_if linux s i w))) =
      (Return (if sys_ret (fst (linux (kstate w) ?d)) <s 0
               then - sys_errno (fst (linux (kstate w) ?d)) else 0),
       snd (linux (kstate w) ?d))"
    by (simp add: eq rep2 st2 del: linux.simps)
  show ?thesis
  proof (cases "index_of_name (ifaces (kstate w)) nm")
    case None
    with dev have "linux (kstate w) ?d = (k_fail ENODEV, kstate w)" by simp
    with nz nm None show ?thesis
      by (simp add: out linux_bind_def k_fail_def word_sless_alt del: linux.simps)
  next
    case (Some j)
    with dev have "linux (kstate w) ?d =
        (k_ok [], (kstate w)\<lparr>bound_dev_if := (bound_dev_if (kstate w))(s := j)\<rparr>)"
      by simp
    with nz nm Some show ?thesis
      by (simp add: out linux_bind_def k_ok_succeeds del: linux.simps)
  qed
qed

lemma linux_bind_eq:
  assumes "wf_netns (kstate w)" and "0 <=s i"
  shows "(fst (socket_bind_if linux s i w), kstate (snd (socket_bind_if linux s i w))) =
     linux_bind (kstate w) s i"
proof (cases "0 <s i")
  case False
  with assms(2) have "i = 0" using nonneg_cases by blast
  then show ?thesis by (simp add: linux_bind_zero)
next
  case True
  show ?thesis
  proof (cases "map_of (ifaces (kstate w)) i")
    case None
    with True show ?thesis by (rule linux_bind_missing)
  next
    case (Some nm)
    with True show ?thesis using wf_name [OF assms(1) Some] by (rule linux_bind_found)
  qed
qed

lemma linux_bind_ifaces: "ifaces (snd (linux_bind ns s i)) = ifaces ns"
  by (simp add: linux_bind_def split: option.splits)

lemma linux_bind_twice: "linux_bind (snd (linux_bind ns s i)) s i = linux_bind ns s i"
  by (simp add: linux_bind_def split: option.splits)

lemma linux_bind_clear:
  "linux_bind (snd (linux_bind ns s i)) s 0 =
     (Return 0, ns\<lparr>bound_dev_if := (bound_dev_if ns)(s := 0)\<rparr>)"
  by (simp add: linux_bind_def split: option.splits)

lemma linux_bind_wf: "wf_netns ns \<Longrightarrow> wf_netns (snd (linux_bind ns s i))"
  by (simp add: wf_netns_def linux_bind_ifaces)

text \<open>
  Claim C10. On the kernel of the spec, in a namespace whose names are valid, and for
  every index that is not negative (an interface that exists, or not): a second call of
  \<^verbatim>\<open>socket_bind_if\<close> with the same socket and index returns what the first returned and
  leaves the kernel in the state the first left. A call with index 0 after it returns 0
  and leaves the kernel as it was before the first call except that the socket is
  unbound, as a freshly created socket is.
\<close>

theorem socket_bind_if_idempotent:
  assumes "wf_netns (kstate w)" and "0 <=s i"
  shows "kstate (snd (socket_bind_if linux s i (snd (socket_bind_if linux s i w)))) =
           kstate (snd (socket_bind_if linux s i w)) \<and>
         fst (socket_bind_if linux s i (snd (socket_bind_if linux s i w))) =
           fst (socket_bind_if linux s i w) \<and>
         fst (socket_bind_if linux s 0 (snd (socket_bind_if linux s i w))) = Return 0 \<and>
         kstate (snd (socket_bind_if linux s 0 (snd (socket_bind_if linux s i w)))) =
           (kstate w)\<lparr>bound_dev_if := (bound_dev_if (kstate w))(s := 0)\<rparr> \<and>
         bound_dev_if (kstate (snd (socket_bind_if linux s 0 (snd (socket_bind_if linux s i w))))) s = 0"
proof -
  let ?w1 = "snd (socket_bind_if linux s i w)"
  have one: "(fst (socket_bind_if linux s i w), kstate ?w1) = linux_bind (kstate w) s i"
    by (rule linux_bind_eq [OF assms])
  then have k1: "kstate ?w1 = snd (linux_bind (kstate w) s i)"
    by (metis snd_conv)
  with assms(1) have wf1: "wf_netns (kstate ?w1)" by (simp add: linux_bind_wf)
  have two: "(fst (socket_bind_if linux s i ?w1), kstate (snd (socket_bind_if linux s i ?w1))) =
      linux_bind (kstate w) s i"
    using linux_bind_eq [OF wf1 assms(2), of s] by (simp add: k1 linux_bind_twice)
  have z: "0 <=s (0 :: cint)" by (simp add: word_sle_eq)
  have clear: "(fst (socket_bind_if linux s 0 ?w1), kstate (snd (socket_bind_if linux s 0 ?w1))) =
      (Return 0, (kstate w)\<lparr>bound_dev_if := (bound_dev_if (kstate w))(s := 0)\<rparr>)"
    using linux_bind_eq [OF wf1 z, of s] by (simp add: k1 linux_bind_clear)
  from one two have a: "kstate (snd (socket_bind_if linux s i ?w1)) = kstate ?w1"
    and b: "fst (socket_bind_if linux s i ?w1) = fst (socket_bind_if linux s i w)"
    by (metis snd_conv, metis fst_conv)
  from clear have c: "fst (socket_bind_if linux s 0 ?w1) = Return 0"
    and d: "kstate (snd (socket_bind_if linux s 0 ?w1)) =
      (kstate w)\<lparr>bound_dev_if := (bound_dev_if (kstate w))(s := 0)\<rparr>"
    by simp_all
  from a b c d show ?thesis by simp
qed

theorem socket_bind_if_idempotent_witness:
  "wf_netns (kstate (start lo_eth0)) \<and> 0 <=s (2 :: cint) \<and>
   fst (socket_bind_if linux 3 2 (start lo_eth0)) = Return 0 \<and>
   bound_dev_if (kstate (snd (socket_bind_if linux 3 2 (start lo_eth0)))) 3 = 2 \<and>
   bound_dev_if (kstate (snd (socket_bind_if linux 3 2 (snd (socket_bind_if linux 3 2 (start lo_eth0)))))) 3 = 2 \<and>
   bound_dev_if (kstate (snd (socket_bind_if linux 3 0 (snd (socket_bind_if linux 3 2 (start lo_eth0)))))) 3 = 0 \<and>
   kstate (snd (socket_bind_if linux 3 0 (snd (socket_bind_if linux 3 2 (start lo_eth0))))) =
     lo_eth0\<lparr>bound_dev_if := (bound_dev_if lo_eth0)(3 := 0)\<rparr>"
proof -
  have a: "wf_netns (kstate (start lo_eth0))"
    by (simp add: wf_netns_def start_def lo_eth0_def valid_ifname_def IFNAMSIZ_def)
  have b: "0 <=s (2 :: cint)" by (simp add: word_sle_eq)
  have c: "fst (socket_bind_if linux 3 2 (start lo_eth0)) = Return 0" by code_simp
  have d: "bound_dev_if (kstate (snd (socket_bind_if linux 3 2 (start lo_eth0)))) 3 = 2" by code_simp
  have k: "kstate (start lo_eth0) = lo_eth0" by (simp add: start_def)
  note t = socket_bind_if_idempotent [OF a b, of 3, unfolded k]
  from t d have e: "bound_dev_if (kstate (snd (socket_bind_if linux 3 2 (snd (socket_bind_if linux 3 2 (start lo_eth0)))))) 3 = 2"
    by metis
  from t a b c d e show ?thesis by blast
qed

end
